theory Spec2Isabelle
  imports Complex_Main
begin

section \<open>Video cutting: time ranges, fade check and subtitle retiming\<close>

text \<open>
  The program is a single Python script, \<^verbatim>\<open>video-cut1.py\<close>. Its pure core is embedded
  here function by function, under the names of the script.

  Conventions of the embedding:
  \<^item> a Python \<^verbatim>\<open>str\<close> is a \<^typ>\<open>string\<close>; within the 8-bit characters of \<^typ>\<open>char\<close> the
    regular-expression class \<^verbatim>\<open>\d\<close> is exactly \<^verbatim>\<open>0\<close> to \<^verbatim>\<open>9\<close>;
  \<^item> a Python \<^verbatim>\<open>float\<close> holding a time in seconds is a \<^typ>\<open>rat\<close>: the arithmetic is
    exact, the rounding of binary floating point is not part of the model. Comparisons,
    minima, floors and truncations are the ones of the script;
  \<^item> a raised exception is a value \<open>Inl (ValueError msg)\<close> of a sum type, \<open>msg\<close> being
    the message of the script;
  \<^item> the calls of the media engine are values of a datatype that records the arguments
    of the call.
\<close>

subsection \<open>Errors\<close>

datatype error = ValueError string

subsection \<open>Digits and numbers\<close>

definition is_digit :: "char \<Rightarrow> bool" where
  "is_digit c = (c \<in> set ''0123456789'')"

definition digit_val :: "char \<Rightarrow> nat" where
  "digit_val c = of_char c - 48"

text \<open>
  \<^verbatim>\<open>int(s)\<close> on a string of decimal digits. The bound that recent interpreters put on
  the number of digits is not modelled.
\<close>

definition py_int :: "string \<Rightarrow> nat" where
  "py_int s = foldl (\<lambda>n c. 10 * n + digit_val c) 0 s"

text \<open>\<^verbatim>\<open>float(s)\<close> on a string \<^verbatim>\<open>digits\<close> or \<^verbatim>\<open>digits.digits\<close>: its exact decimal value.\<close>

definition py_float :: "string \<Rightarrow> rat" where
  "py_float s =
     (let ip = takeWhile is_digit s;
          fp = drop (Suc (length ip)) s
      in of_nat (py_int ip) + of_nat (py_int fp) / 10 ^ length fp)"

subsection \<open>\<^verbatim>\<open>parse_time\<close>\<close>

text \<open>
  \<^verbatim>\<open>re.match(r'(\d+):(\d+)(?::(\d+(?:\.\d+)?))?', time_str)\<close> followed by
  \<^verbatim>\<open>match.groups(default='0')\<close>. The match is anchored at the start of the string and
  every repetition is greedy. \<open>opt_seconds\<close> is the optional third group on the text that
  follows the second group: a colon and digits, then possibly a dot and digits; when the
  group does not take part in the match its value is the default \<^verbatim>\<open>'0'\<close>.
\<close>

definition opt_seconds :: "string \<Rightarrow> string" where
  "opt_seconds r =
     (case r of
        [] \<Rightarrow> ''0''
      | c # r1 \<Rightarrow>
          if c = CHR '':'' \<and> takeWhile is_digit r1 \<noteq> [] then
            (let d = takeWhile is_digit r1 in
             case dropWhile is_digit r1 of
               [] \<Rightarrow> d
             | c' # r2 \<Rightarrow>
                 if c' = CHR ''.'' \<and> takeWhile is_digit r2 \<noteq> []
                 then d @ ''.'' @ takeWhile is_digit r2
                 else d)
          else ''0'')"

definition match_time :: "string \<Rightarrow> (string \<times> string \<times> string) option" where
  "match_time time_str =
     (let h = takeWhile is_digit time_str in
      if h = [] then None
      else case dropWhile is_digit time_str of
             [] \<Rightarrow> None
           | c # r1 \<Rightarrow>
               if c \<noteq> CHR '':'' then None
               else (let m = takeWhile is_digit r1 in
                     if m = [] then None
                     else Some (h, m, opt_seconds (dropWhile is_digit r1))))"

definition parse_time :: "string \<Rightarrow> error + rat" where
  "parse_time time_str =
     (case match_time time_str of
        None \<Rightarrow> Inl (ValueError (''Invalid time: '' @ time_str))
      | Some (h, m, s) \<Rightarrow>
          Inr (of_nat (py_int h) * 3600 + of_nat (py_int m) * 60 + py_float s))"

subsection \<open>\<^verbatim>\<open>parse_time_ranges_file\<close>\<close>

text \<open>
  \<^verbatim>\<open>str.strip()\<close> removes leading and trailing white space; among the 8-bit characters
  these are the codes 9 to 13, 28 to 32, 133 and 160.
\<close>

definition is_space :: "char \<Rightarrow> bool" where
  "is_space c = ((of_char c :: nat) \<in> set [9, 10, 11, 12, 13, 28, 29, 30, 31, 32, 133, 160])"

definition strip :: "string \<Rightarrow> string" where
  "strip s = rev (dropWhile is_space (rev (dropWhile is_space s)))"

text \<open>
  \<^verbatim>\<open>re.match(r'([\d:.]+)-([\d:.]+)', line)\<close>: a greedy run of digits, colons and dots, a
  hyphen, and a second such run. Text after the second run is not looked at.
\<close>

definition is_tchar :: "char \<Rightarrow> bool" where
  "is_tchar c = (is_digit c \<or> c = CHR '':'' \<or> c = CHR ''.'')"

definition match_range :: "string \<Rightarrow> (string \<times> string) option" where
  "match_range line =
     (let g1 = takeWhile is_tchar line in
      if g1 = [] then None
      else case dropWhile is_tchar line of
             [] \<Rightarrow> None
           | c # r \<Rightarrow>
               if c \<noteq> CHR ''-'' then None
               else (let g2 = takeWhile is_tchar r in
                     if g2 = [] then None else Some (g1, g2)))"

text \<open>
  The first loop of \<^verbatim>\<open>parse_time_ranges_file\<close>, over the stripped non-blank lines; the
  second argument is the list \<^verbatim>\<open>ranges\<close> built so far. The first line that fails ends
  the loop with its exception.
\<close>

fun parse_lines :: "string list \<Rightarrow> (rat \<times> rat) list \<Rightarrow> error + (rat \<times> rat) list" where
  "parse_lines [] ranges = Inr ranges"
| "parse_lines (line # lines) ranges =
     (case match_range line of
        None \<Rightarrow> Inl (ValueError (''Invalid time range: '' @ line))
      | Some (g1, g2) \<Rightarrow>
          (case parse_time g1 of
             Inl e \<Rightarrow> Inl e
           | Inr start \<Rightarrow>
               (case parse_time g2 of
                  Inl e \<Rightarrow> Inl e
                | Inr end \<Rightarrow>
                    if start \<ge> end
                    then Inl (ValueError (''Start time >= end time: '' @ line))
                    else parse_lines lines (ranges @ [(start, end)]))))"

text \<open>
  The second loop: \<^verbatim>\<open>for i in range(1, len(ranges))\<close> raises when
  \<^verbatim>\<open>ranges[i-1][1] > ranges[i][0]\<close> for some \<open>i\<close>; the message is the same for every \<open>i\<close>.
\<close>

definition unsorted_or_overlap :: "(rat \<times> rat) list \<Rightarrow> bool" where
  "unsorted_or_overlap ranges =
     list_ex (\<lambda>i. snd (ranges ! (i - 1)) > fst (ranges ! i)) [1..<length ranges]"

text \<open>The argument is the list of the lines of the file, as iterating over the file gives them.\<close>

definition stripped_lines :: "string list \<Rightarrow> string list" where
  "stripped_lines file_lines = filter (\<lambda>l. l \<noteq> []) (map strip file_lines)"

definition parse_time_ranges_file :: "string list \<Rightarrow> error + (rat \<times> rat) list" where
  "parse_time_ranges_file file_lines =
     (let lines = stripped_lines file_lines in
      case parse_lines lines [] of
        Inl e \<Rightarrow> Inl e
      | Inr ranges \<Rightarrow>
          if unsorted_or_overlap ranges
          then Inl (ValueError ''Time ranges are not sorted or overlap'')
          else Inr ranges)"



text \<open>
  What the two loops of the parser check of the list they return: every range has its
  start before its end, and no range ends after the start of the next one.
\<close>

definition valid_ranges :: "(rat \<times> rat) list \<Rightarrow> bool" where
  "valid_ranges ranges = (list_all (\<lambda>(start, end). start < end) ranges \<and> \<not> unsorted_or_overlap ranges)"

subsection \<open>\<^verbatim>\<open>get_min_duration\<close>\<close>

text \<open>
  \<^verbatim>\<open>min(end - start for start, end in ranges)\<close>: \<^verbatim>\<open>min\<close> raises \<^verbatim>\<open>ValueError\<close> on an empty
  sequence, and otherwise keeps the first element and replaces it by each later one that
  is smaller. The text of the message differs between versions of the interpreter; only
  the kind of the exception matters below.
\<close>

definition get_min_duration :: "(rat \<times> rat) list \<Rightarrow> error + rat" where
  "get_min_duration ranges =
     (case map (\<lambda>(start, end). end - start) ranges of
        [] \<Rightarrow> Inl (ValueError ''min() arg is an empty sequence'')
      | d # ds \<Rightarrow> Inr (foldl min d ds))"

subsection \<open>\<^verbatim>\<open>cut_and_fade_segments\<close>\<close>

text \<open>
  One call of the media engine per range. With \<^verbatim>\<open>overlap_time > 0\<close> the segment is
  encoded again with a fade in at 0 and a fade out at \<^verbatim>\<open>duration - overlap_time\<close>, both
  lasting \<^verbatim>\<open>overlap_time\<close>; otherwise the streams are copied.
\<close>

datatype segment_call =
    Fade_encode (seg_no: nat) (ss: rat) (t: rat) (fade_d: rat) (fade_out_st: rat)
  | Stream_copy (seg_no: nat) (ss: rat) (t: rat)

definition cut_segment :: "rat \<Rightarrow> nat \<times> rat \<times> rat \<Rightarrow> segment_call" where
  "cut_segment overlap_time = (\<lambda>(idx, start, end).
     (let duration = end - start in
      if overlap_time > 0
      then Fade_encode idx start duration overlap_time (duration - overlap_time)
      else Stream_copy idx start duration))"

definition cut_and_fade_segments :: "(rat \<times> rat) list \<Rightarrow> rat \<Rightarrow> segment_call list" where
  "cut_and_fade_segments ranges overlap_time =
     map (cut_segment overlap_time) (enumerate 0 ranges)"

subsection \<open>\<^verbatim>\<open>adjust_subtitle\<close>: time stamps\<close>

text \<open>
  \<^verbatim>\<open>pattern = re.compile(r'(\d{2}):(\d{2}):(\d{2}),(\d{3})')\<close>. \<open>match_srt\<close> is a match
  of the pattern at the start of a string, \<open>srt_search\<close> the first match from the left,
  which is the element \<^verbatim>\<open>[0]\<close> of \<^verbatim>\<open>pattern.findall\<close> when that list is not empty.
\<close>

fun match_srt :: "string \<Rightarrow> (string \<times> string \<times> string \<times> string) option" where
  "match_srt (h1 # h2 # c1 # m1 # m2 # c2 # s1 # s2 # c3 # x1 # x2 # x3 # r) =
     (if is_digit h1 \<and> is_digit h2 \<and> c1 = CHR '':'' \<and>
         is_digit m1 \<and> is_digit m2 \<and> c2 = CHR '':'' \<and>
         is_digit s1 \<and> is_digit s2 \<and> c3 = CHR '','' \<and>
         is_digit x1 \<and> is_digit x2 \<and> is_digit x3
      then Some ([h1, h2], [m1, m2], [s1, s2], [x1, x2, x3])
      else None)"
| "match_srt _ = None"

fun srt_search :: "string \<Rightarrow> (string \<times> string \<times> string \<times> string) option" where
  "srt_search [] = None"
| "srt_search (c # r) =
     (case match_srt (c # r) of Some g \<Rightarrow> Some g | None \<Rightarrow> srt_search r)"

definition srt_time_to_sec :: "string \<times> string \<times> string \<times> string \<Rightarrow> rat" where
  "srt_time_to_sec = (\<lambda>(h, m, s, ms).
     of_nat (py_int h) * 3600 + of_nat (py_int m) * 60 + of_nat (py_int s)
       + of_nat (py_int ms) / 1000)"

text \<open>
  \<^verbatim>\<open>int(x)\<close> on a float truncates towards zero; \<^verbatim>\<open>round(x)\<close> rounds to the nearest
  integer and a tie to the even one; \<^verbatim>\<open>x // y\<close> is the floor of the quotient and
  \<^verbatim>\<open>x % y\<close> what remains.
\<close>

definition py_trunc :: "rat \<Rightarrow> int" where
  "py_trunc x = (if x \<ge> 0 then \<lfloor>x\<rfloor> else \<lceil>x\<rceil>)"

definition py_round :: "rat \<Rightarrow> int" where
  "py_round x =
     (let f = \<lfloor>x\<rfloor>; d = x - of_int f in
      if d < 1 / 2 then f
      else if d > 1 / 2 then f + 1
      else if even f then f else f + 1)"

definition py_floordiv :: "rat \<Rightarrow> rat \<Rightarrow> rat" where
  "py_floordiv x y = of_int \<lfloor>x / y\<rfloor>"

definition py_mod :: "rat \<Rightarrow> rat \<Rightarrow> rat" where
  "py_mod x y = x - y * of_int \<lfloor>x / y\<rfloor>"

text \<open>
  The format specifications \<^verbatim>\<open>{h:02}\<close> and \<^verbatim>\<open>{ms:03}\<close> of an integer: decimal digits,
  filled with zeros on the left up to the width, the sign counting for the width; a number
  with more digits than the width is written in full.
\<close>

definition digit_char :: "nat \<Rightarrow> char" where
  "digit_char n = char_of (48 + n)"

fun show_nat :: "nat \<Rightarrow> string" where
  "show_nat n = (if n < 10 then [digit_char n] else show_nat (n div 10) @ [digit_char (n mod 10)])"

declare show_nat.simps [simp del]

definition zero_pad :: "nat \<Rightarrow> string \<Rightarrow> string" where
  "zero_pad w s = replicate (w - length s) CHR ''0'' @ s"

definition fmt_int :: "nat \<Rightarrow> int \<Rightarrow> string" where
  "fmt_int w i =
     (if i < 0 then ''-'' @ zero_pad (w - 1) (show_nat (nat (- i)))
      else zero_pad w (show_nat (nat i)))"

definition sec_to_srt_time :: "rat \<Rightarrow> string" where
  "sec_to_srt_time sec =
     (let h = py_trunc (py_floordiv sec 3600);
          m = py_trunc (py_floordiv (py_mod sec 3600) 60);
          s = py_trunc (py_mod sec 60);
          ms = py_trunc (of_int (py_round ((sec - of_int (py_trunc sec)) * 1000)))
      in fmt_int 2 h @ '':'' @ fmt_int 2 m @ '':'' @ fmt_int 2 s @ '','' @ fmt_int 3 ms)"

subsection \<open>\<^verbatim>\<open>adjust_subtitle\<close>: the two loops\<close>

text \<open>\<^verbatim>\<open>'-->' in line\<close> and \<^verbatim>\<open>line.split('-->')\<close>.\<close>

fun has_arrow :: "string \<Rightarrow> bool" where
  "has_arrow (a # b # c # r) =
     (a = CHR ''-'' \<and> b = CHR ''-'' \<and> c = CHR ''>'' \<or> has_arrow (b # c # r))"
| "has_arrow _ = False"

fun split_arrow :: "string \<Rightarrow> string list" where
  "split_arrow (a # b # c # r) =
     (if a = CHR ''-'' \<and> b = CHR ''-'' \<and> c = CHR ''>'' then [] # split_arrow r
      else (let ps = split_arrow (b # c # r) in (a # hd ps) # tl ps))"
| "split_arrow s = [s]"

text \<open>
  What the body of the inner loop reads from one line: nothing when the line has no
  \<^verbatim>\<open>-->\<close> or one of its two sides has no time stamp, the start and the end of the cue in
  seconds otherwise. The assignment \<^verbatim>\<open>t1, t2 = line.split('-->')\<close> raises when the line
  has more than one \<^verbatim>\<open>-->\<close>.
\<close>

definition line_cue :: "string \<Rightarrow> error + (rat \<times> rat) option" where
  "line_cue line =
     (if has_arrow line then
        (case split_arrow line of
           [t1, t2] \<Rightarrow>
             (case (srt_search t1, srt_search t2) of
                (Some m1, Some m2) \<Rightarrow> Inr (Some (srt_time_to_sec m1, srt_time_to_sec m2))
              | _ \<Rightarrow> Inr None)
         | _ \<Rightarrow> Inl (ValueError ''too many values to unpack (expected 2)''))
      else Inr None)"

text \<open>
  A cue written to the output: the segment and the line it comes from, its new start and
  end in seconds (the arguments of \<^verbatim>\<open>sec_to_srt_time\<close>), and its lines of text, which are
  the lines after the time line up to the first blank line.
\<close>

record emitted =
  seg :: nat
  line_no :: nat
  new_st :: rat
  new_et :: rat
  body :: "string list"

definition cue_text :: "string list \<Rightarrow> nat \<Rightarrow> string list" where
  "cue_text srt_lines i = takeWhile (\<lambda>l. strip l \<noteq> []) (drop (Suc i) srt_lines)"

text \<open>A loop whose body appends to a list or raises.\<close>

fun collect :: "('a \<Rightarrow> error + 'b list) \<Rightarrow> 'a list \<Rightarrow> error + 'b list" where
  "collect f [] = Inr []"
| "collect f (x # xs) =
     (case f x of
        Inl e \<Rightarrow> Inl e
      | Inr ys \<Rightarrow> (case collect f xs of Inl e \<Rightarrow> Inl e | Inr zs \<Rightarrow> Inr (ys @ zs)))"


definition visit_line ::
  "string list \<Rightarrow> nat \<Rightarrow> rat \<Rightarrow> rat \<Rightarrow> rat \<Rightarrow> nat \<Rightarrow> error + emitted list" where
  "visit_line srt_lines seg_idx start end seg_offset i =
     (case line_cue (srt_lines ! i) of
        Inl e \<Rightarrow> Inl e
      | Inr None \<Rightarrow> Inr []
      | Inr (Some (st, et)) \<Rightarrow>
          if st \<ge> start \<and> et \<le> end
          then Inr [\<lparr>seg = seg_idx, line_no = i,
                     new_st = st - start + seg_offset, new_et = et - start + seg_offset,
                     body = cue_text srt_lines i\<rparr>]
          else Inr [])"

definition seg_offset_of :: "(rat \<times> rat) list \<Rightarrow> nat \<Rightarrow> rat" where
  "seg_offset_of ranges seg_idx = sum_list (map (\<lambda>r. snd r - fst r) (take seg_idx ranges))"

definition visit_segment :: "string list \<Rightarrow> (rat \<times> rat) list \<Rightarrow> nat \<Rightarrow> error + emitted list" where
  "visit_segment srt_lines ranges seg_idx =
     (let (start, end) = ranges ! seg_idx;
          seg_offset = seg_offset_of ranges seg_idx
      in collect (visit_line srt_lines seg_idx start end seg_offset) [0..<length srt_lines])"

definition retime :: "string list \<Rightarrow> (rat \<times> rat) list \<Rightarrow> error + emitted list" where
  "retime srt_lines ranges = collect (visit_segment srt_lines ranges) [0..<length ranges]"

text \<open>
  The lines appended to \<^verbatim>\<open>new_srt\<close> for the cue numbered \<^verbatim>\<open>idx\<close>; \<^verbatim>\<open>idx\<close> starts at 1 and
  grows by one with each cue.
\<close>

definition newline :: string where
  "newline = [CHR 0x0A]"

definition render_cue :: "nat \<times> emitted \<Rightarrow> string list" where
  "render_cue = (\<lambda>(idx, c).
     [show_nat idx @ newline,
      sec_to_srt_time (new_st c) @ '' --> '' @ sec_to_srt_time (new_et c) @ newline]
     @ body c @ [newline])"

definition adjust_subtitle :: "string list \<Rightarrow> (rat \<times> rat) list \<Rightarrow> error + string list" where
  "adjust_subtitle srt_lines ranges =
     (case retime srt_lines ranges of
        Inl e \<Rightarrow> Inl e
      | Inr cs \<Rightarrow> Inr (concat (map render_cue (enumerate 1 cs))))"

subsection \<open>\<^verbatim>\<open>main\<close>\<close>

text \<open>
  The arguments are the lines of the range file, the value of \<^verbatim>\<open>--overlap\<close> and the lines
  of the subtitle file when \<^verbatim>\<open>--subtitle\<close> is given. The run ends with \<^verbatim>\<open>exit(1)\<close> after a
  message, with an exception that nothing catches, or with the output written; the last
  two carry the calls of the media engine made for the segments.
\<close>

datatype exit_reason = Range_file_error error | Fade_too_long

datatype outcome =
    Exit1 exit_reason
  | Uncaught "segment_call list" error
  | Completed "segment_call list" "string list option"

definition main :: "string list \<Rightarrow> rat \<Rightarrow> string list option \<Rightarrow> outcome" where
  "main time_ranges_file overlap subtitle =
     (case parse_time_ranges_file time_ranges_file of
        Inl e \<Rightarrow> Exit1 (Range_file_error e)
      | Inr ranges \<Rightarrow>
          (case get_min_duration ranges of
             Inl e \<Rightarrow> Uncaught [] e
           | Inr min_dur \<Rightarrow>
               if overlap > min_dur then Exit1 Fade_too_long
               else (let segment_files = cut_and_fade_segments ranges overlap in
                     case subtitle of
                       None \<Rightarrow> Completed segment_files None
                     | Some srt_lines \<Rightarrow>
                         (case adjust_subtitle srt_lines ranges of
                            Inl e \<Rightarrow> Uncaught segment_files e
                          | Inr new_srt \<Rightarrow> Completed segment_files (Some new_srt)))))"

section \<open>Properties\<close>

subsection \<open>The time parser\<close>









subsection \<open>The fade check of \<^verbatim>\<open>main\<close>\<close>

lemma foldl_min_Min: "foldl min d ds = Min (set (d # ds))"
proof (induction ds arbitrary: d)
  case Nil
  then show ?case by simp
next
  case (Cons x xs)
  have "foldl min d (x # xs) = Min (set (min d x # xs))"
    using Cons.IH by simp
  also have "\<dots> = Min (set (d # x # xs))"
    by (cases "xs = []") (simp_all add: min.assoc)
  finally show ?case .
qed

lemma get_min_duration_Min:
  assumes "ranges \<noteq> []"
  shows "get_min_duration ranges = Inr (Min ((\<lambda>(start, end). end - start) ` set ranges))"
proof -
  obtain r rs where rr: "ranges = r # rs"
    using assms by (cases ranges) auto
  have "set (map (\<lambda>(start, end). end - start) ranges) = (\<lambda>(start, end). end - start) ` set ranges"
    by (rule set_map)
  then show ?thesis
    unfolding get_min_duration_def rr list.map list.case foldl_min_Min
    by (simp only: list.map[symmetric])
qed

lemma get_min_duration_empty:
  "get_min_duration [] = Inl (ValueError ''min() arg is an empty sequence'')"
  by (simp add: get_min_duration_def)



lemma parse_lines_positive:
  "parse_lines lines acc = Inr rs \<Longrightarrow> \<forall>(s, e)\<in>set acc. s < e \<Longrightarrow> \<forall>(s, e)\<in>set rs. s < e"
proof (induction lines arbitrary: acc)
  case Nil
  then show ?case by simp
next
  case (Cons line lines)
  from Cons.prems(1) obtain g1 g2 start "end" where
    m: "match_range line = Some (g1, g2)" and
    s: "parse_time g1 = Inr start" and e: "parse_time g2 = Inr end" and
    lt: "start < end" and rest: "parse_lines lines (acc @ [(start, end)]) = Inr rs"
    by (auto split: option.splits sum.splits if_splits)
  have "\<forall>(s, e)\<in>set (acc @ [(start, end)]). s < e"
    using Cons.prems(2) lt by auto
  with Cons.IH[OF rest] show ?case .
qed

lemma parse_file_positive:
  assumes "parse_time_ranges_file file_lines = Inr ranges"
  shows "\<forall>(s, e)\<in>set ranges. s < e"
proof -
  from assms have "parse_lines (stripped_lines file_lines) [] = Inr ranges"
    by (auto simp: parse_time_ranges_file_def Let_def split: sum.splits if_splits)
  then show ?thesis by (rule parse_lines_positive) simp
qed

lemma cut_negative:
  "overlap_time \<le> 0 \<Longrightarrow>
   cut_and_fade_segments ranges overlap_time
     = map (\<lambda>(idx, start, end). Stream_copy idx start (end - start)) (enumerate 0 ranges)"
  by (auto simp: cut_and_fade_segments_def cut_segment_def Let_def)

text \<open>
  C10. A fade below zero passes the check, since the shortest range is longer than 0, and
  every segment is then cut by the branch that copies the streams: no fade filter is
  applied.
\<close>

theorem negative_fade_stream_copy:
  assumes p: "parse_time_ranges_file time_ranges_file = Inr ranges" and ne: "ranges \<noteq> []"
    and neg: "overlap < 0"
  shows "main time_ranges_file overlap None = Completed (cut_and_fade_segments ranges overlap) None
       \<and> (case main time_ranges_file overlap subtitle of
            Exit1 r \<Rightarrow> False
          | Uncaught calls e \<Rightarrow> calls = cut_and_fade_segments ranges overlap
          | Completed calls out \<Rightarrow> calls = cut_and_fade_segments ranges overlap)
       \<and> cut_and_fade_segments ranges overlap
           = map (\<lambda>(idx, start, end). Stream_copy idx start (end - start)) (enumerate 0 ranges)"
proof -
  define d where "d = Min ((\<lambda>(start, end). end - start) ` set ranges)"
  have g: "get_min_duration ranges = Inr d"
    unfolding d_def using ne by (rule get_min_duration_Min)
  have "d \<in> (\<lambda>(start, end). end - start) ` set ranges"
    unfolding d_def using ne by (intro Min_in) auto
  then have "0 < d"
    using parse_file_positive[OF p] by auto
  then have le: "\<not> overlap > d"
    using neg by simp
  have 1: "main time_ranges_file overlap None = Completed (cut_and_fade_segments ranges overlap) None"
    by (simp add: main_def p g le Let_def)
  have 2: "case main time_ranges_file overlap subtitle of
            Exit1 r \<Rightarrow> False
          | Uncaught calls e \<Rightarrow> calls = cut_and_fade_segments ranges overlap
          | Completed calls out \<Rightarrow> calls = cut_and_fade_segments ranges overlap"
    by (simp add: main_def p g le Let_def split: option.splits sum.splits)
  have 3: "cut_and_fade_segments ranges overlap
           = map (\<lambda>(idx, start, end). Stream_copy idx start (end - start)) (enumerate 0 ranges)"
    using neg by (intro cut_negative) simp
  show ?thesis using 1 2 3 by blast
qed

theorem negative_fade_stream_copy_witness:
  "parse_time_ranges_file [''0:00:05-0:00:15'', ''0:00:30-0:00:40''] = Inr [(5, 15), (30, 40)]
   \<and> (-2::rat) < 0
   \<and> main [''0:00:05-0:00:15'', ''0:00:30-0:00:40''] (-2) None
       = Completed [Stream_copy 0 5 10, Stream_copy 1 30 10] None"
proof -
  have p: "parse_time_ranges_file [''0:00:05-0:00:15'', ''0:00:30-0:00:40''] = Inr [(5, 15), (30, 40)]"
    by code_simp
  have c: "cut_and_fade_segments [(5, 15), (30, 40)] (-2) = [Stream_copy 0 5 10, Stream_copy 1 30 10]"
    by code_simp
  show ?thesis
    using p negative_fade_stream_copy[OF p, of "-2" None] by (simp add: c)
qed

lemma parse_blank:
  assumes "\<forall>l\<in>set file_lines. strip l = []"
  shows "parse_time_ranges_file file_lines = Inr []"
proof -
  have "stripped_lines file_lines = []"
    unfolding stripped_lines_def using assms by (induction file_lines) auto
  then show ?thesis
    by (simp add: parse_time_ranges_file_def unsorted_or_overlap_def)
qed

text \<open>
  C9. When every line of the range file is blank, the parser returns the empty list,
  \<^verbatim>\<open>get_min_duration\<close> raises \<^verbatim>\<open>ValueError\<close> on it, and \<^verbatim>\<open>main\<close> does not catch that
  exception. \<^verbatim>\<open>get_min_duration\<close> raises on the empty list only.
\<close>

theorem empty_range_file:
  assumes "\<forall>l\<in>set file_lines. strip l = []"
  shows "parse_time_ranges_file file_lines = Inr []
       \<and> get_min_duration [] = Inl (ValueError ''min() arg is an empty sequence'')
       \<and> main file_lines overlap subtitle = Uncaught [] (ValueError ''min() arg is an empty sequence'')
       \<and> ((\<exists>e. get_min_duration ranges = Inl e) \<longleftrightarrow> ranges = [])"
proof -
  have p: "parse_time_ranges_file file_lines = Inr []"
    using assms by (rule parse_blank)
  have 4: "(\<exists>e. get_min_duration ranges = Inl e) \<longleftrightarrow> ranges = []"
    by (cases ranges) (simp_all add: get_min_duration_def)
  show ?thesis
    using 4 by (simp add: p main_def get_min_duration_empty)
qed

theorem empty_range_file_witness:
  "list_all (\<lambda>l. strip l = []) ['' '', newline, []]
   \<and> parse_time_ranges_file ['' '', newline, []] = Inr []
   \<and> main ['' '', newline, []] 0 None = Uncaught [] (ValueError ''min() arg is an empty sequence'')"
proof -
  have h: "\<forall>l\<in>set ['' '', newline, []]. strip l = []"
    by (simp add: strip_def is_space_def newline_def)
  show ?thesis
    using h empty_range_file[OF h, of 0 None] by (simp add: list_all_iff)
qed

subsection \<open>The range validator\<close>



lemma map_filter_all:
  "\<forall>l\<in>set lines. f l \<noteq> None \<Longrightarrow> List.map_filter f lines = map (\<lambda>l. the (f l)) lines"
  by (induction lines) (auto simp: List.map_filter_simps)





subsection \<open>The subtitle retimer\<close>














lemma collect_all_Inr:
  "\<forall>x\<in>set xs. \<exists>zs. f x = Inr zs \<Longrightarrow> \<exists>ys. collect f xs = Inr ys"
  by (induction xs) (auto split: sum.splits)

lemma retime_returns:
  assumes "\<forall>l\<in>set srt_lines. \<exists>x. line_cue l = Inr x"
  shows "\<exists>cs. retime srt_lines ranges = Inr cs"
proof -
  have "\<exists>zs. visit_line srt_lines k start end off i = Inr zs" if "i < length srt_lines" for k start "end" off i
  proof -
    from that assms obtain x where "line_cue (srt_lines ! i) = Inr x"
      using nth_mem by blast
    then show ?thesis
      by (auto simp: visit_line_def split: option.splits)
  qed
  then have "\<exists>zs. visit_segment srt_lines ranges k = Inr zs" for k
    unfolding visit_segment_def Let_def case_prod_beta
    by (intro collect_all_Inr) auto
  then show ?thesis
    unfolding retime_def by (intro collect_all_Inr) auto
qed

lemma parse_valid:
  assumes "parse_time_ranges_file file_lines = Inr ranges"
  shows "valid_ranges ranges"
  using parse_file_positive[OF assms] assms
  by (auto simp: valid_ranges_def list_all_iff parse_time_ranges_file_def Let_def
           split: sum.splits if_splits)














subsection \<open>Subtitle time stamps\<close>

lemma digit_chars:
  "digit_char 0 = CHR ''0''" "digit_char 1 = CHR ''1''" "digit_char 2 = CHR ''2''"
  "digit_char 3 = CHR ''3''" "digit_char 4 = CHR ''4''" "digit_char 5 = CHR ''5''"
  "digit_char 6 = CHR ''6''" "digit_char 7 = CHR ''7''" "digit_char 8 = CHR ''8''"
  "digit_char 9 = CHR ''9''" "digit_char (Suc 0) = CHR ''1''"
  by code_simp+

lemma is_digit_char: "is_digit c \<Longrightarrow> digit_val c < 10 \<and> digit_char (digit_val c) = c"
  unfolding is_digit_def by (auto simp: digit_val_def digit_chars)

lemma show_nat_digit: "n < 10 \<Longrightarrow> show_nat n = [digit_char n]"
  by (simp add: show_nat.simps)

lemma show_nat_step: "\<not> n < 10 \<Longrightarrow> show_nat n = show_nat (n div 10) @ [digit_char (n mod 10)]"
  by (subst show_nat.simps) simp

lemma show_nat_snoc:
  assumes "c < 10" and "n \<noteq> 0"
  shows "show_nat (10 * n + c) = show_nat n @ [digit_char c]"
proof -
  have n: "\<not> 10 * n + c < 10" using assms(2) by simp
  have "(10 * n + c) div 10 = n" "(10 * n + c) mod 10 = c"
    using assms(1) by simp_all
  then show ?thesis
    by (simp add: show_nat_step[OF n])
qed

lemma show_nat2:
  assumes "a < 10" "b < 10" "a \<noteq> 0"
  shows "show_nat (10 * a + b) = [digit_char a, digit_char b]"
  using assms by (simp add: show_nat_snoc show_nat_digit)

lemma pad2:
  assumes "a < 10" "b < 10"
  shows "zero_pad 2 (show_nat (10 * a + b)) = [digit_char a, digit_char b]"
proof (cases "a = 0")
  case True
  then show ?thesis
    using assms by (simp add: show_nat_digit zero_pad_def digit_chars(1))
next
  case False
  then show ?thesis
    using assms by (simp add: show_nat2 zero_pad_def)
qed

lemma pad3:
  assumes "a < 10" "b < 10" "c < 10"
  shows "zero_pad 3 (show_nat (10 * (10 * a + b) + c)) = [digit_char a, digit_char b, digit_char c]"
proof (cases "10 * a + b = 0")
  case True
  then have "a = 0" "b = 0" by simp_all
  then show ?thesis
    using assms by (simp add: show_nat_digit zero_pad_def digit_chars(1) numeral_3_eq_3)
next
  case False
  have sn: "show_nat (10 * (10 * a + b) + c) = show_nat (10 * a + b) @ [digit_char c]"
    using assms(3) False by (rule show_nat_snoc)
  show ?thesis
  proof (cases "a = 0")
    case True
    then have "show_nat (10 * a + b) = [digit_char b]"
      using assms by (simp add: show_nat_digit)
    then show ?thesis
      unfolding sn using True by (simp add: zero_pad_def digit_chars(1))
  next
    case False
    then have "show_nat (10 * a + b) = [digit_char a, digit_char b]"
      using assms by (intro show_nat2)
    then show ?thesis
      unfolding sn by (simp add: zero_pad_def)
  qed
qed

lemma py_int2: "py_int [a, b] = 10 * digit_val a + digit_val b"
  by (simp add: py_int_def)

lemma py_int3: "py_int [a, b, c] = 10 * (10 * digit_val a + digit_val b) + digit_val c"
  by (simp add: py_int_def)

lemma fmt_int_nat: "fmt_int w (int n) = zero_pad w (show_nat n)"
  by (simp add: fmt_int_def)

lemma fmt2:
  assumes "is_digit a" "is_digit b"
  shows "fmt_int 2 (int (py_int [a, b])) = [a, b]"
  unfolding fmt_int_nat py_int2
  using pad2[of "digit_val a" "digit_val b"] is_digit_char[OF assms(1)] is_digit_char[OF assms(2)]
  by simp

lemma fmt3:
  assumes "is_digit a" "is_digit b" "is_digit c"
  shows "fmt_int 3 (int (py_int [a, b, c])) = [a, b, c]"
  unfolding fmt_int_nat py_int3
  using pad3[of "digit_val a" "digit_val b" "digit_val c"]
    is_digit_char[OF assms(1)] is_digit_char[OF assms(2)] is_digit_char[OF assms(3)]
  by simp

lemma floor_div_unique:
  fixes x d :: rat
  assumes "0 < d" "of_int q * d \<le> x" "x < of_int q * d + d"
  shows "\<lfloor>x / d\<rfloor> = q"
proof (rule floor_unique)
  show "of_int q \<le> x / d"
    using assms(1,2) by (simp add: pos_le_divide_eq)
  have "x < (of_int q + 1) * d"
    using assms(3) by (simp add: algebra_simps)
  then show "x / d < of_int q + 1"
    using assms(1) by (simp add: pos_divide_less_eq)
qed

lemma sec_to_srt_time_parts:
  fixes H M S X :: nat
  assumes M: "M < 60" and S: "S < 60" and X: "X < 1000"
  shows "sec_to_srt_time (of_nat H * 3600 + of_nat M * 60 + of_nat S + of_nat X / 1000)
           = fmt_int 2 (int H) @ '':'' @ fmt_int 2 (int M) @ '':'' @ fmt_int 2 (int S)
               @ '','' @ fmt_int 3 (int X)"
proof -
  define sec :: rat where "sec = of_nat H * 3600 + of_nat M * 60 + of_nat S + of_nat X / 1000"
  have bM: "(of_nat M :: rat) \<le> 59" "(0 :: rat) \<le> of_nat M"
    using M by (simp_all add: of_nat_le_iff[where ?'a = rat, of M 59, simplified])
  have bS: "(of_nat S :: rat) \<le> 59" "(0 :: rat) \<le> of_nat S"
    using S by (simp_all add: of_nat_le_iff[where ?'a = rat, of S 59, simplified])
  have bX: "(of_nat X :: rat) \<le> 999" "(0 :: rat) \<le> of_nat X"
    using X by (simp_all add: of_nat_le_iff[where ?'a = rat, of X 999, simplified])
  have bH: "(0 :: rat) \<le> of_nat H" by simp
  have fX: "(0 :: rat) \<le> of_nat X / 1000" "(of_nat X / 1000 :: rat) < 1"
    using bX by simp_all
  have nonneg: "0 \<le> sec"
    unfolding sec_def using bM bS fX bH by linarith
  have h: "\<lfloor>sec / 3600\<rfloor> = int H"
  proof (rule floor_div_unique)
    show "(0 :: rat) < 3600" by simp
    show "of_int (int H) * 3600 \<le> sec"
      unfolding sec_def of_int_of_nat_eq using bM bS fX by linarith
    show "sec < of_int (int H) * 3600 + 3600"
      unfolding sec_def of_int_of_nat_eq using bM bS fX by linarith
  qed
  have m60: "\<lfloor>sec / 60\<rfloor> = int H * 60 + int M"
  proof (rule floor_div_unique)
    show "(0 :: rat) < 60" by simp
    have e: "(of_int (int H * 60 + int M) * 60 :: rat) = of_nat H * 3600 + of_nat M * 60" by simp
    show "of_int (int H * 60 + int M) * 60 \<le> sec"
      unfolding sec_def e using bM bS fX by linarith
    show "sec < of_int (int H * 60 + int M) * 60 + 60"
      unfolding sec_def e using bM bS fX by linarith
  qed
  have mod3600: "py_mod sec 3600 = of_nat M * 60 + of_nat S + of_nat X / 1000"
    by (simp add: py_mod_def h) (simp add: sec_def)
  have m: "\<lfloor>py_mod sec 3600 / 60\<rfloor> = int M"
    unfolding mod3600
  proof (rule floor_div_unique)
    show "(0 :: rat) < 60" by simp
    show "of_int (int M) * 60 \<le> (of_nat M * 60 + of_nat S + of_nat X / 1000 :: rat)"
      unfolding of_int_of_nat_eq using bS fX by linarith
    show "(of_nat M * 60 + of_nat S + of_nat X / 1000 :: rat) < of_int (int M) * 60 + 60"
      unfolding of_int_of_nat_eq using bS fX by linarith
  qed
  have mod60: "py_mod sec 60 = of_nat S + of_nat X / 1000"
    by (simp add: py_mod_def m60) (simp add: sec_def algebra_simps)
  have s: "py_trunc (py_mod sec 60) = int S"
  proof -
    have "\<lfloor>(of_nat S + of_nat X / 1000 :: rat)\<rfloor> = int S"
      by (rule floor_unique) (use fX in \<open>simp_all\<close>)
    then show ?thesis
      unfolding mod60 py_trunc_def using bS fX by simp
  qed
  have t: "py_trunc sec = int H * 3600 + int M * 60 + int S"
  proof -
    have "\<lfloor>sec\<rfloor> = int H * 3600 + int M * 60 + int S"
      by (rule floor_unique) (use fX in \<open>simp_all add: sec_def\<close>)
    then show ?thesis
      unfolding py_trunc_def using nonneg by simp
  qed
  have frac: "(sec - of_int (py_trunc sec)) * 1000 = of_nat X"
    unfolding t by (simp add: sec_def)
  have ms: "py_trunc (of_int (py_round ((sec - of_int (py_trunc sec)) * 1000))) = int X"
    unfolding frac by (simp add: py_round_def py_trunc_def)
  have hh: "py_trunc (py_floordiv sec 3600) = int H"
    by (simp add: py_floordiv_def h py_trunc_def)
  have mm: "py_trunc (py_floordiv (py_mod sec 3600) 60) = int M"
    by (simp add: py_floordiv_def m py_trunc_def)
  show ?thesis
    unfolding sec_def[symmetric] sec_to_srt_time_def Let_def hh mm s ms ..
qed

text \<open>
  C8. A well-formed time stamp \<^verbatim>\<open>HH:MM:SS,mmm\<close> has two digits of hours, two of minutes
  and two of seconds, both below 60, and three digits of milliseconds. The pattern of the
  retimer finds its four groups, and formatting the seconds that \<^verbatim>\<open>srt_time_to_sec\<close>
  makes of them gives the time stamp back. In the model the seconds are an exact rational
  number, so nothing is lost below the millisecond.
\<close>

theorem srt_round_trip:
  assumes d: "is_digit h1" "is_digit h2" "is_digit m1" "is_digit m2" "is_digit s1" "is_digit s2"
      "is_digit x1" "is_digit x2" "is_digit x3"
    and M: "py_int [m1, m2] < 60" and S: "py_int [s1, s2] < 60"
  shows "srt_search [h1, h2, CHR '':'', m1, m2, CHR '':'', s1, s2, CHR '','', x1, x2, x3] = Some ([h1, h2], [m1, m2], [s1, s2], [x1, x2, x3])
       \<and> sec_to_srt_time (srt_time_to_sec ([h1, h2], [m1, m2], [s1, s2], [x1, x2, x3])) = [h1, h2, CHR '':'', m1, m2, CHR '':'', s1, s2, CHR '','', x1, x2, x3]"
proof -
  have 1: "srt_search [h1, h2, CHR '':'', m1, m2, CHR '':'', s1, s2, CHR '','', x1, x2, x3] = Some ([h1, h2], [m1, m2], [s1, s2], [x1, x2, x3])"
    using d by simp
  have X: "py_int [x1, x2, x3] < 1000"
    using is_digit_char[OF d(7), THEN conjunct1] is_digit_char[OF d(8), THEN conjunct1]
      is_digit_char[OF d(9), THEN conjunct1]
    unfolding py_int3 by simp
  have "sec_to_srt_time (srt_time_to_sec ([h1, h2], [m1, m2], [s1, s2], [x1, x2, x3]))
          = fmt_int 2 (int (py_int [h1, h2])) @ '':'' @ fmt_int 2 (int (py_int [m1, m2])) @ '':''
              @ fmt_int 2 (int (py_int [s1, s2])) @ '','' @ fmt_int 3 (int (py_int [x1, x2, x3]))"
    unfolding srt_time_to_sec_def prod.case using M S X by (rule sec_to_srt_time_parts)
  also have "\<dots> = [h1, h2, CHR '':'', m1, m2, CHR '':'', s1, s2, CHR '','', x1, x2, x3]"
    using d by (simp add: fmt2 fmt3)
  finally show ?thesis
    using 1 by simp
qed

theorem srt_round_trip_witness:
  "is_digit CHR ''2'' \<and> is_digit CHR ''7'' \<and> is_digit CHR ''0'' \<and> is_digit CHR ''5''
   \<and> is_digit CHR ''9'' \<and> py_int ''05'' < 60 \<and> py_int ''59'' < 60
   \<and> srt_search ''27:05:59,007'' = Some (''27'', ''05'', ''59'', ''007'')
   \<and> srt_time_to_sec (''27'', ''05'', ''59'', ''007'') = 97559 + 7 / 1000
   \<and> sec_to_srt_time (97559 + 7 / 1000) = ''27:05:59,007''"
proof -
  have d: "is_digit CHR ''2''" "is_digit CHR ''7''" "is_digit CHR ''0''" "is_digit CHR ''5''"
    "is_digit CHR ''9''"
    by (simp_all add: is_digit_def)
  have b: "py_int ''05'' < 60" "py_int ''59'' < 60"
    by (simp_all add: py_int_def digit_val_def)
  have v: "srt_time_to_sec (''27'', ''05'', ''59'', ''007'') = 97559 + 7 / 1000"
    by (simp add: srt_time_to_sec_def py_int_def digit_val_def)
  have "srt_search ''27:05:59,007'' = Some (''27'', ''05'', ''59'', ''007'')
       \<and> sec_to_srt_time (srt_time_to_sec (''27'', ''05'', ''59'', ''007'')) = ''27:05:59,007''"
    by (rule srt_round_trip) (simp_all add: d b)
  then show ?thesis
    unfolding v using d b v by simp
qed

text \<open>
  The shape of the output of the formatter on seconds that are not negative and whose
  fractional part rounds to fewer than 1000 milliseconds: the hours in at least two
  digits, then two digits of minutes, two of seconds and three of milliseconds.
\<close>

lemma is_digit_digit_char:
  assumes "n < 10"
  shows "is_digit (digit_char n)"
proof -
  have "list_all (\<lambda>k. is_digit (digit_char k)) [0..<10]"
    by code_simp
  moreover have "n \<in> set [0..<10]"
    using assms by simp
  ultimately show ?thesis
    unfolding list_all_iff by blast
qed

lemma show_nat_digits: "list_all is_digit (show_nat n)"
proof (induction n rule: show_nat.induct)
  case (1 n)
  show ?case
  proof (cases "n < 10")
    case True
    then show ?thesis by (simp add: show_nat_digit is_digit_digit_char)
  next
    case False
    then show ?thesis
      using 1 by (simp add: show_nat_step is_digit_digit_char)
  qed
qed

lemma zero_pad_digits:
  assumes "list_all is_digit s"
  shows "list_all is_digit (zero_pad w s)"
proof -
  have "is_digit CHR ''0''" by (simp add: is_digit_def)
  then have "list_all is_digit (replicate (w - length s) CHR ''0'')"
    by (simp add: list_all_iff)
  then show ?thesis
    using assms by (simp add: zero_pad_def)
qed

lemma zero_pad_length: "w \<le> length (zero_pad w s)"
  by (simp add: zero_pad_def)

lemma two_digits:
  assumes "n < 100"
  shows "\<exists>a b. zero_pad 2 (show_nat n) = [a, b] \<and> is_digit a \<and> is_digit b"
proof -
  have "n = 10 * (n div 10) + n mod 10" by simp
  moreover have "n div 10 < 10" "n mod 10 < 10" using assms by simp_all
  ultimately show ?thesis
    using pad2[of "n div 10" "n mod 10"] by (simp add: is_digit_digit_char)
qed

lemma three_digits:
  assumes "n < 1000"
  shows "\<exists>a b c. zero_pad 3 (show_nat n) = [a, b, c] \<and> is_digit a \<and> is_digit b \<and> is_digit c"
proof -
  define q where "q = n div 10"
  have n: "n = 10 * (10 * (q div 10) + q mod 10) + n mod 10" by (simp add: q_def)
  have b: "q div 10 < 10" "q mod 10 < 10" "n mod 10 < 10" using assms by (simp_all add: q_def)
  have "zero_pad 3 (show_nat n) = [digit_char (q div 10), digit_char (q mod 10), digit_char (n mod 10)]"
    using pad3[OF b] n by simp
  then show ?thesis
    using b by (simp add: is_digit_digit_char)
qed

lemma py_round_near: "\<lfloor>x\<rfloor> \<le> py_round x \<and> py_round x \<le> \<lfloor>x\<rfloor> + 1"
  by (simp add: py_round_def Let_def)

lemma py_round_bounds:
  assumes "0 \<le> x"
  shows "0 \<le> py_round x" and "x < 1999 / 2 \<Longrightarrow> py_round x < 1000"
proof -
  have f0: "0 \<le> \<lfloor>x\<rfloor>" using assms by simp
  then show "0 \<le> py_round x"
    using py_round_near[of x] by linarith
  assume lt: "x < 1999 / 2"
  then have "x < 1000" by simp
  then have fl: "\<lfloor>x\<rfloor> < 1000" by (simp add: floor_less_iff)
  show "py_round x < 1000"
  proof (cases "\<lfloor>x\<rfloor> = 999")
    case True
    then have "x - of_int \<lfloor>x\<rfloor> < 1 / 2" using lt by simp
    then show ?thesis using True by (simp add: py_round_def Let_def)
  next
    case False
    then have "\<lfloor>x\<rfloor> \<le> 998" using fl by linarith
    then show ?thesis using py_round_near[of x] by linarith
  qed
qed

lemma fmt_int_nonneg: "0 \<le> i \<Longrightarrow> fmt_int w i = zero_pad w (show_nat (nat i))"
  by (simp add: fmt_int_def)

lemma py_mod_range:
  assumes "0 < d"
  shows "0 \<le> py_mod x d \<and> py_mod x d < d"
proof -
  define q :: rat where "q = of_int \<lfloor>x / d\<rfloor>"
  have "q \<le> x / d" unfolding q_def by simp
  then have lo: "q * d \<le> x"
    using assms by (simp add: pos_le_divide_eq)
  have "x / d < q + 1" unfolding q_def by linarith
  then have "x < (q + 1) * d"
    using assms by (simp add: pos_divide_less_eq)
  then have hi: "x < q * d + d"
    by (simp add: algebra_simps)
  have "py_mod x d = x - d * q"
    by (simp add: py_mod_def q_def)
  then show ?thesis
    using lo hi by (simp add: algebra_simps)
qed

lemma sec_to_srt_time_format:
  assumes nonneg: "0 \<le> sec" and nocarry: "(sec - of_int \<lfloor>sec\<rfloor>) * 1000 < 1999 / 2"
  shows "\<exists>hs m1 m2 s1 s2 x1 x2 x3.
           sec_to_srt_time sec
             = hs @ [CHR '':'', m1, m2, CHR '':'', s1, s2, CHR '','', x1, x2, x3]
         \<and> hs = zero_pad 2 (show_nat (nat \<lfloor>sec / 3600\<rfloor>))
         \<and> 2 \<le> length hs
         \<and> list_all is_digit (hs @ [m1, m2, s1, s2, x1, x2, x3])"
proof -
  define h where "h = py_trunc (py_floordiv sec 3600)"
  define m where "m = py_trunc (py_floordiv (py_mod sec 3600) 60)"
  define s where "s = py_trunc (py_mod sec 60)"
  define ms where "ms = py_trunc (of_int (py_round ((sec - of_int (py_trunc sec)) * 1000)))"
  have eq: "sec_to_srt_time sec
              = fmt_int 2 h @ '':'' @ fmt_int 2 m @ '':'' @ fmt_int 2 s @ '','' @ fmt_int 3 ms"
    by (simp add: sec_to_srt_time_def h_def m_def s_def ms_def)
  have tr: "py_trunc (of_int i) = i" for i
    by (simp add: py_trunc_def)
  have h0: "0 \<le> \<lfloor>sec / 3600\<rfloor>" using nonneg by simp
  have hv: "h = \<lfloor>sec / 3600\<rfloor>"
    by (simp add: h_def py_floordiv_def tr)
  have r1: "0 \<le> py_mod sec 3600 \<and> py_mod sec 3600 < 3600"
    by (rule py_mod_range) simp
  have mv: "m = \<lfloor>py_mod sec 3600 / 60\<rfloor>"
    by (simp add: m_def py_floordiv_def tr)
  have m0: "0 \<le> m" unfolding mv using r1 by simp
  have m1: "m < 60" unfolding mv using r1 by (simp add: floor_less_iff)
  have r2: "0 \<le> py_mod sec 60 \<and> py_mod sec 60 < 60"
    by (rule py_mod_range) simp
  have sv: "s = \<lfloor>py_mod sec 60\<rfloor>"
    using r2 by (simp add: s_def py_trunc_def)
  have s0: "0 \<le> s" unfolding sv using r2 by simp
  have s1: "s < 60" unfolding sv using r2 by (simp add: floor_less_iff)
  have ts: "py_trunc sec = \<lfloor>sec\<rfloor>"
    using nonneg by (simp add: py_trunc_def)
  have fr: "0 \<le> (sec - of_int \<lfloor>sec\<rfloor>) * 1000"
    by simp
  have msv: "ms = py_round ((sec - of_int \<lfloor>sec\<rfloor>) * 1000)"
    by (simp add: ms_def tr ts)
  have ms0: "0 \<le> ms" unfolding msv using fr by (rule py_round_bounds(1))
  have ms1: "ms < 1000" unfolding msv using fr nocarry by (rule py_round_bounds(2))
  have nm: "nat m < 100" using m0 m1 by simp
  have ns: "nat s < 100" using s0 s1 by simp
  have nx: "nat ms < 1000" using ms0 ms1 by simp
  obtain a b where mm: "zero_pad 2 (show_nat (nat m)) = [a, b]" "is_digit a" "is_digit b"
    using two_digits[OF nm] by blast
  obtain c d where ss: "zero_pad 2 (show_nat (nat s)) = [c, d]" "is_digit c" "is_digit d"
    using two_digits[OF ns] by blast
  obtain x y z where xx: "zero_pad 3 (show_nat (nat ms)) = [x, y, z]"
      "is_digit x" "is_digit y" "is_digit z"
    using three_digits[OF nx] by blast
  define hs where "hs = zero_pad 2 (show_nat (nat \<lfloor>sec / 3600\<rfloor>))"
  have hd: "list_all is_digit hs"
    unfolding hs_def by (intro zero_pad_digits show_nat_digits)
  have hl: "2 \<le> length hs"
    unfolding hs_def by (rule zero_pad_length)
  have "sec_to_srt_time sec = hs @ [CHR '':'', a, b, CHR '':'', c, d, CHR '','', x, y, z]"
    unfolding eq using h0 m0 s0 ms0 by (simp add: fmt_int_nonneg hv[symmetric] hs_def mm ss xx)
  moreover have "list_all is_digit (hs @ [a, b, c, d, x, y, z])"
    using hd mm ss xx by simp
  ultimately show ?thesis
    using hl hs_def by blast
qed

text \<open>
  C7. The formatter writes at least two digits of hours, taken from the floor of
  \<open>sec / 3600\<close> without a modulus, two digits of minutes and of seconds, and the
  milliseconds as the fractional part times 1000, rounded. When the fractional part is
  0.9995 or more the rounding gives 1000, which is written with four digits, and the
  seconds are not carried: 2047/2048 seconds is written \<^verbatim>\<open>00:00:00,1000\<close>. The retimer
  reaches this value from a range that starts at 1/2048 seconds and a cue that starts at
  1 second.
\<close>

theorem sec_to_srt_time_carry:
  "sec_to_srt_time (2047 / 2048) = ''00:00:00,1000''
   \<and> main [''0:00:00.00048828125-0:00:10''] 0
        (Some [''1\<newline>'', ''00:00:01,000 --> 00:00:02,000\<newline>'', ''x\<newline>''])
       = Completed [Stream_copy 0 (1 / 2048) (20479 / 2048)]
           (Some [''1\<newline>'', ''00:00:00,1000 --> 00:00:01,1000\<newline>'', ''x\<newline>'', ''\<newline>''])"
proof -
  have f: "sec_to_srt_time (2047 / 2048) = ''00:00:00,1000''"
    by code_simp
  have t: "parse_time ''0:00:00.00048828125'' = Inr (1 / 2048)"
    by (simp add: parse_time_def match_time_def opt_seconds_def is_digit_def py_int_def
          py_float_def digit_val_def Let_def)
  have m: "match_range ''0:00:00.00048828125-0:00:10''
             = Some (''0:00:00.00048828125'', ''0:00:10'')"
    by code_simp
  have e: "parse_time ''0:00:10'' = Inr 10"
    by code_simp
  have s: "stripped_lines [''0:00:00.00048828125-0:00:10''] = [''0:00:00.00048828125-0:00:10'']"
    by code_simp
  have p: "parse_time_ranges_file [''0:00:00.00048828125-0:00:10''] = Inr [(1 / 2048, 10)]"
    by (simp add: parse_time_ranges_file_def s m t e unsorted_or_overlap_def)
  have g: "get_min_duration [(1 / 2048, 10)] = Inr (20479 / 2048)"
    by (simp add: get_min_duration_def)
  have c: "cut_and_fade_segments [(1 / 2048, 10)] 0 = [Stream_copy 0 (1 / 2048) (20479 / 2048)]"
    by (simp add: cut_and_fade_segments_def cut_segment_def)
  have a: "adjust_subtitle [''1\<newline>'', ''00:00:01,000 --> 00:00:02,000\<newline>'', ''x\<newline>'']
             [(1 / 2048, 10)]
           = Inr [''1\<newline>'', ''00:00:00,1000 --> 00:00:01,1000\<newline>'', ''x\<newline>'', ''\<newline>'']"
    by code_simp
  have "main [''0:00:00.00048828125-0:00:10''] 0
        (Some [''1\<newline>'', ''00:00:01,000 --> 00:00:02,000\<newline>'', ''x\<newline>''])
       = Completed [Stream_copy 0 (1 / 2048) (20479 / 2048)]
           (Some [''1\<newline>'', ''00:00:00,1000 --> 00:00:01,1000\<newline>'', ''x\<newline>'', ''\<newline>''])"
    unfolding main_def p by (simp add: g c a)
  with f show ?thesis by (intro conjI)
qed

end
